theory Spec2Isabelle
  imports Main
begin

section \<open>WP Engine domain monitor: DNS verifier and status classifier\<close>

text \<open>
  The development follows \<^verbatim>\<open>server.js\<close> (and the static generator, which holds the
  same functions \<^verbatim>\<open>dnsLookup\<close>, \<^verbatim>\<open>dnsPointsToWPE\<close>, \<^verbatim>\<open>batchAsync\<close> and
  \<^verbatim>\<open>determineDomainStatus\<close> word for word).

  JavaScript values are modelled at the types the hosting API documents: strings are
  \<^typ>\<open>string\<close>, a field that may be missing, \<^verbatim>\<open>null\<close> or \<^verbatim>\<open>undefined\<close> is an
  \<^typ>\<open>'a option\<close>, and optional chaining \<^verbatim>\<open>a?.b\<close> is \<^const>\<open>Option.bind\<close>.
\<close>

subsection \<open>String helpers\<close>

definition endsWith :: "string \<Rightarrow> string \<Rightarrow> bool" where
  "endsWith c s = (length s \<le> length c \<and> drop (length c - length s) c = s)"

definition startsWith :: "string \<Rightarrow> string \<Rightarrow> bool" where
  "startsWith ip p = (take (length p) ip = p)"

text \<open>\<^verbatim>\<open>String.prototype.toUpperCase\<close> for ASCII text, which is what the status words of
  the hosting API are: the letters a to z are raised, every other character is kept.\<close>

definition toUpperChar :: "char \<Rightarrow> char" where
  "toUpperChar c =
     (let n = (of_char c :: nat) in if 97 \<le> n \<and> n \<le> 122 then char_of (n - 32) else c)"

definition toUpperCase :: "string \<Rightarrow> string" where
  "toUpperCase s = map toUpperChar s"

text \<open>JavaScript truthiness of an optional string: missing and the empty string are falsy.\<close>

definition truthy :: "string option \<Rightarrow> bool" where
  "truthy s = (case s of None \<Rightarrow> False | Some v \<Rightarrow> v \<noteq> [])"

subsection \<open>Provider fingerprints\<close>

definition WPE_CNAME_SUFFIXES :: "string list" where
  "WPE_CNAME_SUFFIXES =
     [''.wpengine.com'', ''.wpenginepowered.com'', ''.wpesvc.net'', ''.wpeproxy.com'']"

definition WPE_IP_PREFIXES :: "string list" where
  "WPE_IP_PREFIXES = [''141.193.213.'', ''35.203.43.'', ''172.64.80.'']"

subsection \<open>Data model\<close>

record dns_result =
  ips :: "string list"
  cnames :: "string list"
  resolved :: bool

record ssl_info =
  ssl_status :: "string option"

record network_info =
  ni_status :: "string option"
  ni_ssl :: "ssl_info option"

record dns_config_info =
  cname :: "string option"
  a_records :: "string list option"

record network_details =
  network_info :: "network_info option"
  dns_config_info :: "dns_config_info option"

record redirect =
  redirect_name :: "string option"

text \<open>A domain as the hosting API lists it.\<close>

record domain =
  dom_name :: string
  dom_id :: string
  dom_primary :: bool
  dom_network_type :: "string option"
  dom_redirect_to :: "redirect option"
  dom_network_details :: "network_details option"

datatype verdict = Good | Issue | Pending | System | Confirmed | Unknown

subsection \<open>DNS verifier\<close>

text \<open>
  The operating system's resolver is a pair of lookups; each either returns a list of
  records or fails (\<^const>\<open>None\<close>: NXDOMAIN, ENODATA, timeout). \<^verbatim>\<open>dnsLookup\<close> swallows
  both failures.
\<close>

record resolver =
  resolve4 :: "string \<Rightarrow> string list option"
  resolveCname :: "string \<Rightarrow> string list option"

definition dnsLookup :: "resolver \<Rightarrow> string \<Rightarrow> dns_result" where
  "dnsLookup dns d =
     (let result = \<lparr>ips = [], cnames = [], resolved = False\<rparr>;
          result = (case resolve4 dns d of
                      Some rs \<Rightarrow> result\<lparr>ips := rs, resolved := True\<rparr>
                    | None \<Rightarrow> result);
          result = (case resolveCname dns d of
                      Some cs \<Rightarrow> result\<lparr>cnames := cs,
                                         resolved := (resolved result \<or> 0 < length cs)\<rparr>
                    | None \<Rightarrow> result)
      in result)"

text \<open>The cross-install index is a JavaScript \<^verbatim>\<open>Set\<close>; the function also accepts its
  absence (\<^verbatim>\<open>allDomainNames && ...\<close>).\<close>

definition set_has :: "string set option \<Rightarrow> string \<Rightarrow> bool" where
  "set_has allDomainNames c = (case allDomainNames of None \<Rightarrow> False | Some S \<Rightarrow> c \<in> S)"

definition dnsPointsToWPE ::
  "dns_result option \<Rightarrow> string option \<Rightarrow> string set option \<Rightarrow> bool" where
  "dnsPointsToWPE dnsResult installCname allDomainNames =
     (case dnsResult of
        None \<Rightarrow> False
      | Some r \<Rightarrow>
          if \<not> resolved r then False
          else if 0 < length (cnames r) \<and>
                  list_ex (\<lambda>c. list_ex (\<lambda>s. endsWith c s) WPE_CNAME_SUFFIXES
                                \<or> Some c = installCname) (cnames r)
               then True
          else if 0 < length (cnames r) \<and> allDomainNames \<noteq> None \<and>
                  list_ex (\<lambda>c. set_has allDomainNames c) (cnames r)
               then True
          else if 0 < length (ips r) \<and>
                  list_ex (\<lambda>ip. list_ex (\<lambda>p. startsWith ip p) WPE_IP_PREFIXES) (ips r)
               then True
          else False)"

subsection \<open>Status classifier\<close>

definition isSystemName :: "string \<Rightarrow> bool" where
  "isSystemName n = (endsWith n ''.wpenginepowered.com'' \<or> endsWith n ''.wpengine.com'')"

text \<open>The declared network status, \<^verbatim>\<open>domain.network_details?.network_info?.status\<close>,
  and its upper-cased form.\<close>

definition declaredStatus :: "domain \<Rightarrow> string option" where
  "declaredStatus d = Option.bind (Option.bind (dom_network_details d) network_info) ni_status"

definition networkStatus_of :: "domain \<Rightarrow> string option" where
  "networkStatus_of d = map_option toUpperCase (declaredStatus d)"

definition expectedCname_of :: "domain \<Rightarrow> string option" where
  "expectedCname_of d =
     (let c = Option.bind (Option.bind (dom_network_details d) dns_config_info) cname
      in if truthy c then c else None)"

definition expectedARecords_of :: "domain \<Rightarrow> string list" where
  "expectedARecords_of d =
     (case Option.bind (Option.bind (dom_network_details d) dns_config_info) a_records of
        None \<Rightarrow> [] | Some rs \<Rightarrow> rs)"

definition dnsMatchesExpected_of :: "domain \<Rightarrow> dns_result option \<Rightarrow> bool" where
  "dnsMatchesExpected_of d dnsResult =
     (case dnsResult of
        None \<Rightarrow> False
      | Some r \<Rightarrow>
          if 0 < length (ips r) \<and> 0 < length (expectedARecords_of d)
          then list_ex (\<lambda>ip. ip \<in> set (expectedARecords_of d)) (ips r)
          else False)"

definition cnameMatchesExpected_of :: "domain \<Rightarrow> dns_result option \<Rightarrow> bool" where
  "cnameMatchesExpected_of d dnsResult =
     (case dnsResult of
        None \<Rightarrow> False
      | Some r \<Rightarrow>
          if 0 < length (cnames r) \<and> truthy (expectedCname_of d)
          then list_ex (\<lambda>c. Some c = expectedCname_of d) (cnames r)
          else False)"

definition determineDomainStatus ::
  "domain \<Rightarrow> dns_result option \<Rightarrow> string option \<Rightarrow> string set option \<Rightarrow> verdict \<times> string"
where
  "determineDomainStatus d dnsResult installCname allDomainNames =
     (if isSystemName (dom_name d) then (System, ''System domain'')
      else
        let networkStatus = networkStatus_of d;
            dnsMatches = (case dnsResult of
                            None \<Rightarrow> False
                          | Some r \<Rightarrow> dnsPointsToWPE (Some r) installCname allDomainNames);
            dnsMatchesExpected = dnsMatchesExpected_of d dnsResult;
            cnameMatchesExpected = cnameMatchesExpected_of d dnsResult
        in
          if networkStatus = Some ''ACTIVE'' then
            (if dnsMatches \<or> dnsMatchesExpected \<or> cnameMatchesExpected
               then (Good, ''Active & DNS pointed'')
             else if (case dnsResult of None \<Rightarrow> False | Some r \<Rightarrow> resolved r)
               then (Issue, ''DNS not pointed to WPE'')
             else if (case dnsResult of None \<Rightarrow> False | Some r \<Rightarrow> \<not> resolved r)
               then (Issue, ''DNS not resolving'')
             else (Good, ''Active (API)''))
          else if networkStatus = Some ''PENDING'' then (Pending, ''Pending setup'')
          else if networkStatus = Some ''DELETED'' then (Issue, ''Network deleted'')
          else if \<not> truthy networkStatus then
            (if dnsMatches then (Good, ''DNS pointed (Legacy)'')
             else if (case dnsResult of None \<Rightarrow> False | Some r \<Rightarrow> resolved r)
               then (Issue, ''DNS not pointed to WPE'')
             else if (case dnsResult of None \<Rightarrow> False | Some r \<Rightarrow> \<not> resolved r)
               then (Issue, ''DNS not resolving'')
             else (Unknown, ''No status data''))
          else (Unknown, (case networkStatus of
                            None \<Rightarrow> ''Unknown''
                          | Some s \<Rightarrow> if s = [] then ''Unknown'' else s)))"

section \<open>Fetch/refresh orchestrator\<close>

subsection \<open>Bounded-concurrency batches\<close>

text \<open>
  \<^verbatim>\<open>batchAsync\<close> walks the items in slices of \<^verbatim>\<open>concurrency\<close> elements and appends
  \<^verbatim>\<open>await Promise.all(batch.map(fn))\<close>, which lists the results in the order of the batch
  whatever the order of completion. The loop counter advances by \<^verbatim>\<open>concurrency\<close>, so
  the loop need not end: not returning is the value \<^const>\<open>None\<close>.
\<close>

partial_function (option) batchAsync_loop ::
  "'a list \<Rightarrow> nat \<Rightarrow> ('a \<Rightarrow> 'b) \<Rightarrow> nat \<Rightarrow> 'b list \<Rightarrow> 'b list option" where
  "batchAsync_loop items concurrency fn i results =
     (if i < length items
      then batchAsync_loop items concurrency fn (i + concurrency)
             (results @ map fn (take concurrency (drop i items)))
      else Some results)"

definition batchAsync :: "'a list \<Rightarrow> nat \<Rightarrow> ('a \<Rightarrow> 'b) \<Rightarrow> 'b list option" where
  "batchAsync items concurrency fn = batchAsync_loop items concurrency fn 0 []"

subsection \<open>The hosting API\<close>

record install =
  inst_id :: string
  inst_name :: string
  inst_environment :: string
  inst_primary_domain :: string
  inst_cname :: "string option"
  inst_php_version :: string

datatype error = Error string

record 'a page =
  results :: "'a list option"
  next_page :: "string option"

text \<open>\<^verbatim>\<open>apiFetch\<close> either returns the parsed body or throws; the install listing is
  addressed by its offset, a domain listing by the install id.\<close>

record api =
  installs_at :: "nat \<Rightarrow> error + install page"
  domains_at :: "string \<Rightarrow> error + domain page"

definition results_or_empty :: "'a page \<Rightarrow> 'a list" where
  "results_or_empty data = (case results data of None \<Rightarrow> [] | Some rs \<Rightarrow> rs)"

partial_function (option) fetchAllInstalls_loop ::
  "api \<Rightarrow> install list \<Rightarrow> nat \<Rightarrow> (error + install list) option" where
  "fetchAllInstalls_loop a all offset =
     (case installs_at a offset of
        Inl e \<Rightarrow> Some (Inl e)
      | Inr data \<Rightarrow>
          if \<not> truthy (next_page data) then Some (Inr (all @ results_or_empty data))
          else fetchAllInstalls_loop a (all @ results_or_empty data) (offset + 100))"

definition fetchAllInstalls :: "api \<Rightarrow> (error + install list) option" where
  "fetchAllInstalls a = fetchAllInstalls_loop a [] 0"

definition fetchDomains :: "api \<Rightarrow> string \<Rightarrow> domain list" where
  "fetchDomains a installId =
     (case domains_at a installId of Inl e \<Rightarrow> [] | Inr data \<Rightarrow> results_or_empty data)"

subsection \<open>Snapshot\<close>

text \<open>Field names are those of the source; \<^verbatim>\<open>sd_\<close>, \<^verbatim>\<open>site_\<close> mark the fields that
  several objects share. The last three fields of a domain exist only after the override
  projection.\<close>

record site_domain =
  sd_name :: string
  sd_id :: string
  sd_primary :: bool
  sd_network_type :: string
  sd_redirect_to :: "string option"
  isSystem :: bool
  dns :: "dns_result option"
  status :: verdict
  detail :: string
  sslStatus :: "string option"
  expectedCname :: "string option"
  expectedARecords :: "string list"
  originalStatus :: "verdict option"
  originalDetail :: "string option"
  confirmedAt :: "string option"

record site =
  site_name :: string
  site_id :: string
  site_environment :: string
  site_primary_domain :: string
  site_cname :: "string option"
  site_php_version :: string
  domains :: "site_domain list"
  issueCount :: nat
  pendingCount :: nat
  confirmedCount :: "nat option"

record stats =
  totalSites :: nat
  totalDomains :: nat
  customDomains :: nat
  good :: nat
  issues :: nat
  pending :: nat
  timestamp :: string
  confirmed :: "nat option"

record snapshot =
  sites :: "site list"
  stats :: stats

subsection \<open>Override store and server state\<close>

text \<open>
  \<^verbatim>\<open>confirmedDomains\<close> is a plain object used as a dictionary from domain names to
  \<^verbatim>\<open>{ confirmedAt }\<close>; \<^verbatim>\<open>confirmed.json\<close> holds what \<^verbatim>\<open>saveConfirmed\<close> last wrote
  (\<^const>\<open>None\<close>: no readable file). The map \<open>confirmedDomains\<close> holds the object's own
  properties. A plain object also inherits the members of \<^verbatim>\<open>Object.prototype\<close>, and an
  assignment to the key \<^verbatim>\<open>__proto__\<close> that is not an own property replaces the prototype
  instead of adding a key: \<open>confirmedProto\<close> is the object so installed
  (\<^const>\<open>None\<close>: the prototype is \<^verbatim>\<open>Object.prototype\<close> itself).
\<close>

record override =
  ov_confirmedAt :: string

type_synonym store = "string \<rightharpoonup> override"

record server_state =
  cachedData :: "snapshot option"
  isRefreshing :: bool
  refreshProgress :: string
  confirmedDomains :: store
  confirmedProto :: "override option"
  confirmed_file :: "store option"

definition Object_prototype_members :: "string list" where
  "Object_prototype_members =
     [''constructor'', ''__defineGetter__'', ''__defineSetter__'', ''hasOwnProperty'',
      ''__lookupGetter__'', ''__lookupSetter__'', ''isPrototypeOf'', ''propertyIsEnumerable'',
      ''toString'', ''valueOf'', ''__proto__'', ''toLocaleString'']"

text \<open>
  The read \<^verbatim>\<open>confirmedDomains[k]\<close>: \<^const>\<open>None\<close> when the value is falsy, otherwise what
  its \<^verbatim>\<open>.confirmedAt\<close> gives (\<^const>\<open>None\<close>: undefined). An own entry wins; then
  \<^verbatim>\<open>__proto__\<close> reads the prototype object; a replaced prototype lends its
  \<^verbatim>\<open>confirmedAt\<close> string; the members of \<^verbatim>\<open>Object.prototype\<close> are functions.
\<close>

definition read_confirmed :: "store \<Rightarrow> override option \<Rightarrow> string \<Rightarrow> string option option" where
  "read_confirmed confirmedDoms proto k =
     (case confirmedDoms k of
        Some ov \<Rightarrow> Some (Some (ov_confirmedAt ov))
      | None \<Rightarrow>
          if k = ''__proto__'' then Some (map_option ov_confirmedAt proto)
          else if k = ''confirmedAt'' \<and> truthy (map_option ov_confirmedAt proto) then Some None
          else if k \<in> set Object_prototype_members then Some None
          else None)"

text \<open>The names that read as confirmed without an entry of their own.\<close>

definition inherits :: "override option \<Rightarrow> string \<Rightarrow> bool" where
  "inherits proto k =
     (k \<in> set Object_prototype_members \<or> (proto \<noteq> None \<and> k = ''confirmedAt''))"

definition loadConfirmed :: "store option \<Rightarrow> store" where
  "loadConfirmed file = (case file of None \<Rightarrow> Map.empty | Some m \<Rightarrow> m)"

subsection \<open>The refresh pipeline\<close>

record env =
  env_api :: api
  env_dns :: resolver
  env_now :: string

definition allDomainNames_of :: "(install \<times> domain list) list \<Rightarrow> string set" where
  "allDomainNames_of installDomains = set (concat (map (\<lambda>(inst, ds). map dom_name ds) installDomains))"

text \<open>The custom domains, each with the canonical CNAME of its install
  (\<^verbatim>\<open>{ ...d, _installCname: install.cname }\<close>).\<close>

definition allCustomDomains_of :: "(install \<times> domain list) list \<Rightarrow> (domain \<times> string option) list" where
  "allCustomDomains_of installDomains =
     concat (map (\<lambda>(inst, ds).
               map (\<lambda>d. (d, inst_cname inst))
                 (filter (\<lambda>d. \<not> endsWith (dom_name d) ''.wpenginepowered.com''
                              \<and> \<not> endsWith (dom_name d) ''.wpengine.com'') ds))
             installDomains)"

text \<open>
  The per-domain callback of the DNS stage stores its result under the domain's id:
  \<^verbatim>\<open>dnsResults[d.id] = result\<close>. The stores are modelled in the order of the input list.
\<close>

definition dnsResults_of :: "resolver \<Rightarrow> (domain \<times> string option) list \<Rightarrow> (string \<rightharpoonup> dns_result)" where
  "dnsResults_of r ds = fold (\<lambda>(d, ic) m. m(dom_id d \<mapsto> dnsLookup r (dom_name d))) ds Map.empty"

definition enrich :: "(string \<rightharpoonup> dns_result) \<Rightarrow> string set \<Rightarrow> install \<Rightarrow> domain \<Rightarrow> site_domain" where
  "enrich dnsResults allDomainNames inst d =
     (let isSys = (endsWith (dom_name d) ''.wpenginepowered.com''
                   \<or> endsWith (dom_name d) ''.wpengine.com'');
          dnsResult = dnsResults (dom_id d);
          (st, det) = determineDomainStatus d dnsResult (inst_cname inst) (Some allDomainNames);
          ssl = Option.bind (Option.bind (Option.bind (dom_network_details d) network_info) ni_ssl)
                  ssl_status;
          rt = Option.bind (dom_redirect_to d) redirect_name
      in \<lparr>sd_name = dom_name d, sd_id = dom_id d, sd_primary = dom_primary d,
          sd_network_type = (case dom_network_type d of None \<Rightarrow> [] | Some t \<Rightarrow> t),
          sd_redirect_to = (if truthy rt then rt else None),
          isSystem = isSys, dns = dnsResult, status = st, detail = det,
          sslStatus = (if truthy ssl then ssl else None),
          expectedCname = expectedCname_of d,
          expectedARecords = expectedARecords_of d,
          originalStatus = None, originalDetail = None, confirmedAt = None\<rparr>)"

definition count_status :: "verdict \<Rightarrow> site_domain list \<Rightarrow> nat" where
  "count_status v ds = length (filter (\<lambda>d. status d = v) ds)"

definition siteData_of ::
  "(string \<rightharpoonup> dns_result) \<Rightarrow> string set \<Rightarrow> (install \<times> domain list) list \<Rightarrow> site list" where
  "siteData_of dnsResults allDomainNames installDomains =
     map (\<lambda>(inst, ds).
            let enrichedDomains = map (enrich dnsResults allDomainNames inst) ds;
                custom = filter (\<lambda>d. \<not> isSystem d) enrichedDomains
            in \<lparr>site_name = inst_name inst, site_id = inst_id inst,
                site_environment = inst_environment inst,
                site_primary_domain = inst_primary_domain inst,
                site_cname = inst_cname inst, site_php_version = inst_php_version inst,
                domains = enrichedDomains,
                issueCount = count_status Issue custom,
                pendingCount = count_status Pending custom,
                confirmedCount = None\<rparr>)
         installDomains"

definition snapshot_of :: "string \<Rightarrow> install list \<Rightarrow> site list \<Rightarrow> snapshot" where
  "snapshot_of now installs siteData =
     (let allDomains = concat (map domains siteData);
          customs = filter (\<lambda>d. \<not> isSystem d) allDomains
      in \<lparr>sites = siteData,
          stats = \<lparr>totalSites = length installs, totalDomains = length allDomains,
                   customDomains = length customs,
                   good = count_status Good customs,
                   issues = count_status Issue customs,
                   pending = count_status Pending customs,
                   timestamp = now, confirmed = None\<rparr>\<rparr>)"

text \<open>The stages after the install listing; each \<^verbatim>\<open>await batchAsync\<close> is a barrier.\<close>

definition buildSnapshot :: "env \<Rightarrow> install list \<Rightarrow> snapshot option" where
  "buildSnapshot e installs =
     Option.bind
       (batchAsync installs 10 (\<lambda>inst. (inst, fetchDomains (env_api e) (inst_id inst))))
       (\<lambda>installDomains.
          let allDomainNames = allDomainNames_of installDomains;
              allCustomDomains = allCustomDomains_of installDomains
          in Option.bind
               (batchAsync allCustomDomains 30 (\<lambda>(d, ic). dnsLookup (env_dns e) (dom_name d)))
               (\<lambda>_. let dnsResults = dnsResults_of (env_dns e) allCustomDomains;
                        siteData = siteData_of dnsResults allDomainNames installDomains
                    in Some (snapshot_of (env_now e) installs siteData)))"

text \<open>
  \<^verbatim>\<open>refreshData\<close>, run with nothing else scheduled in between. A call that finds
  \<^verbatim>\<open>isRefreshing\<close> set polls the flag until it is cleared and returns \<^verbatim>\<open>cachedData\<close>;
  otherwise it sets the flag, runs the \<^verbatim>\<open>try\<close> block and clears the flag in
  \<^verbatim>\<open>finally\<close>. The outcome is the thrown error or the returned snapshot.
\<close>

partial_function (option) waitForRefresh :: "server_state \<Rightarrow> snapshot option option" where
  "waitForRefresh st = (if \<not> isRefreshing st then Some (cachedData st) else waitForRefresh st)"

definition refresh_begin :: "server_state \<Rightarrow> server_state" where
  "refresh_begin st = st\<lparr>isRefreshing := True, refreshProgress := ''Fetching installs...''\<rparr>"

definition refresh_body :: "env \<Rightarrow> server_state \<Rightarrow> ((error + snapshot option) \<times> server_state) option" where
  "refresh_body e st =
     Option.bind (fetchAllInstalls (env_api e))
       (\<lambda>listing. case listing of
            Inl err \<Rightarrow> Some (Inl err, st\<lparr>isRefreshing := False\<rparr>)
          | Inr installs \<Rightarrow>
              Option.bind (buildSnapshot e installs)
                (\<lambda>snap. Some (Inr (Some snap),
                               st\<lparr>cachedData := Some snap, refreshProgress := [],
                                  isRefreshing := False\<rparr>)))"

definition refreshData :: "env \<Rightarrow> server_state \<Rightarrow> ((error + snapshot option) \<times> server_state) option" where
  "refreshData e st =
     (if isRefreshing st
      then map_option (\<lambda>data. (Inr data, st)) (waitForRefresh st)
      else refresh_body e (refresh_begin st))"

subsection \<open>Override projection and routes\<close>

definition override_domain :: "store \<Rightarrow> override option \<Rightarrow> site_domain \<Rightarrow> site_domain" where
  "override_domain confirmedDoms proto d =
     (case (if status d = Issue then read_confirmed confirmedDoms proto (sd_name d) else None) of
        Some at \<Rightarrow> d\<lparr>status := Confirmed, originalStatus := Some Issue,
                      originalDetail := Some (detail d), detail := ''Confirmed OK'',
                      confirmedAt := at\<rparr>
      | None \<Rightarrow> d)"

definition override_site :: "store \<Rightarrow> override option \<Rightarrow> site \<Rightarrow> site" where
  "override_site confirmedDoms proto s =
     (let ds = map (override_domain confirmedDoms proto) (domains s);
          custom = filter (\<lambda>d. \<not> isSystem d) ds
      in s\<lparr>domains := ds,
           issueCount := count_status Issue custom,
           confirmedCount := Some (count_status Confirmed custom)\<rparr>)"

definition applyConfirmedOverrides ::
  "store \<Rightarrow> override option \<Rightarrow> snapshot option \<Rightarrow> snapshot option" where
  "applyConfirmedOverrides confirmedDoms proto data =
     (case data of
        None \<Rightarrow> None
      | Some dat \<Rightarrow>
          let sts = map (override_site confirmedDoms proto) (sites dat);
              allDomains = concat (map domains sts);
              customs = filter (\<lambda>d. \<not> isSystem d) allDomains
          in Some \<lparr>sites = sts,
                   stats = (stats dat)\<lparr>good := count_status Good customs,
                                        issues := count_status Issue customs,
                                        confirmed := Some (count_status Confirmed customs),
                                        pending := count_status Pending customs\<rparr>\<rparr>)"

text \<open>Replies of the routes. \<^verbatim>\<open>GET /api/data\<close> answers with the projected snapshot, or
  with \<^verbatim>\<open>{ sites: [], stats: null }\<close> before the first refresh.\<close>

datatype data_reply = Data "site list" "stats option"

datatype confirm_reply =
    ConfirmOk string bool
  | BadRequest string
  | WriteFailed

definition get_api_data :: "server_state \<Rightarrow> data_reply \<times> server_state" where
  "get_api_data st =
     (case applyConfirmedOverrides (confirmedDomains st) (confirmedProto st) (cachedData st) of
        Some v \<Rightarrow> (Data (sites v) (Some (stats v)), st)
      | None \<Rightarrow> (Data [] None, st))"

text \<open>
  \<^verbatim>\<open>POST /api/confirm\<close> and \<^verbatim>\<open>DELETE /api/confirm\<close>. The arguments are the clock
  (\<^verbatim>\<open>new Date().toISOString()\<close>), whether \<^verbatim>\<open>fs.writeFileSync\<close> succeeds, and
  \<^verbatim>\<open>req.body.domain\<close>. The dictionary is updated before it is written out;
  \<^verbatim>\<open>JSON.stringify\<close> writes the own properties.
\<close>

definition assign_confirmed :: "string \<Rightarrow> override \<Rightarrow> server_state \<Rightarrow> server_state" where
  "assign_confirmed x ov st =
     (if x = ''__proto__'' \<and> confirmedDomains st x = None
      then st\<lparr>confirmedProto := Some ov\<rparr>
      else st\<lparr>confirmedDomains := (confirmedDomains st)(x \<mapsto> ov)\<rparr>)"

definition saveConfirmed :: "bool \<Rightarrow> server_state \<Rightarrow> server_state option" where
  "saveConfirmed fs_ok st =
     (if fs_ok then Some (st\<lparr>confirmed_file := Some (confirmedDomains st)\<rparr>) else None)"

definition post_confirm ::
  "string \<Rightarrow> bool \<Rightarrow> string option \<Rightarrow> server_state \<Rightarrow> confirm_reply \<times> server_state" where
  "post_confirm now fs_ok body_domain st =
     (case body_domain of
        None \<Rightarrow> (BadRequest ''domain is required'', st)
      | Some x \<Rightarrow>
          if x = [] then (BadRequest ''domain is required'', st)
          else
            let st1 = assign_confirmed x \<lparr>ov_confirmedAt = now\<rparr> st
            in (case saveConfirmed fs_ok st1 of
                  None \<Rightarrow> (WriteFailed, st1)
                | Some st2 \<Rightarrow> (ConfirmOk x True, st2)))"

definition delete_confirm ::
  "bool \<Rightarrow> string option \<Rightarrow> server_state \<Rightarrow> confirm_reply \<times> server_state" where
  "delete_confirm fs_ok body_domain st =
     (case body_domain of
        None \<Rightarrow> (BadRequest ''domain is required'', st)
      | Some x \<Rightarrow>
          if x = [] then (BadRequest ''domain is required'', st)
          else
            let st1 = st\<lparr>confirmedDomains := (confirmedDomains st)(x := None)\<rparr>
            in (case saveConfirmed fs_ok st1 of
                  None \<Rightarrow> (WriteFailed, st1)
                | Some st2 \<Rightarrow> (ConfirmOk x False, st2)))"

text \<open>An operator's request followed by a read of \<^verbatim>\<open>/api/data\<close>.\<close>

definition confirm_then_view ::
  "string \<Rightarrow> bool \<Rightarrow> string \<Rightarrow> server_state \<Rightarrow> data_reply \<times> server_state" where
  "confirm_then_view now fs_ok x st = get_api_data (snd (post_confirm now fs_ok (Some x) st))"

definition unconfirm_then_view ::
  "bool \<Rightarrow> string \<Rightarrow> server_state \<Rightarrow> data_reply \<times> server_state" where
  "unconfirm_then_view fs_ok x st = get_api_data (snd (delete_confirm fs_ok (Some x) st))"

section \<open>Concurrent calls of the refresh\<close>

text \<open>
  JavaScript runs each stretch of code between two \<^verbatim>\<open>await\<close>s without interruption, so a
  call of \<^verbatim>\<open>refreshData\<close> meets the shared variables in three places only: when it is
  made (it reads \<^verbatim>\<open>isRefreshing\<close> and either sets it or starts to poll), when its
  pipeline ends (\<^verbatim>\<open>cachedData\<close> is replaced on success, the flag is cleared in
  \<^verbatim>\<open>finally\<close>), and when a tick of its poll finds the flag clear (it returns
  \<^verbatim>\<open>cachedData\<close>). These are the steps of the transition system below. A caller is one
  call of \<^verbatim>\<open>refreshData\<close>; there is no bound on their number, and a client that asks
  again is another caller. The operator's confirm and unconfirm requests may come in between.
  \<open>runs\<close> counts the pipelines started. A tick that finds the flag set changes nothing
  and is left out.
\<close>

type_synonym caller = nat

datatype phase = Idle | Running | Waiting | Returned "snapshot option" | Threw error

record config =
  server :: server_state
  phases :: "caller \<Rightarrow> phase"
  runs :: nat

inductive step :: "config \<Rightarrow> config \<Rightarrow> bool" where
  start:
    "phases c a = Idle \<Longrightarrow> \<not> isRefreshing (server c) \<Longrightarrow>
     step c (c\<lparr>server := refresh_begin (server c), phases := (phases c)(a := Running),
               runs := Suc (runs c)\<rparr>)"
| wait:
    "phases c a = Idle \<Longrightarrow> isRefreshing (server c) \<Longrightarrow>
     step c (c\<lparr>phases := (phases c)(a := Waiting)\<rparr>)"
| finish:
    "phases c a = Running \<Longrightarrow> refresh_body e (server c) = Some (out, st') \<Longrightarrow>
     step c (c\<lparr>server := st',
               phases := (phases c)(a := (case out of Inl err \<Rightarrow> Threw err
                                                     | Inr data \<Rightarrow> Returned data))\<rparr>)"
| poll:
    "phases c a = Waiting \<Longrightarrow> \<not> isRefreshing (server c) \<Longrightarrow>
     step c (c\<lparr>phases := (phases c)(a := Returned (cachedData (server c)))\<rparr>)"
| confirm:
    "step c (c\<lparr>server := snd (post_confirm now fs_ok body_domain (server c))\<rparr>)"
| unconfirm:
    "step c (c\<lparr>server := snd (delete_confirm fs_ok body_domain (server c))\<rparr>)"






section \<open>Sample inputs\<close>

text \<open>Concrete domains and DNS results on which the theorems below are exercised.\<close>

definition plain_domain :: "string \<Rightarrow> string \<Rightarrow> network_details option \<Rightarrow> domain" where
  "plain_domain n i nd =
     \<lparr>dom_name = n, dom_id = i, dom_primary = False, dom_network_type = None,
      dom_redirect_to = None, dom_network_details = nd\<rparr>"

definition with_status :: "string \<Rightarrow> string list \<Rightarrow> network_details" where
  "with_status s recs =
     \<lparr>network_info = Some \<lparr>ni_status = Some s, ni_ssl = None\<rparr>,
      dns_config_info = Some \<lparr>cname = None, a_records = Some recs\<rparr>\<rparr>"

definition pending_domain :: domain where
  "pending_domain = plain_domain ''p.example.com'' ''d-1'' (Some (with_status ''Pending'' []))"

definition active_domain :: domain where
  "active_domain =
     plain_domain ''a.example.com'' ''d-2'' (Some (with_status ''active'' [''203.0.113.5'']))"

definition wpe_dns :: dns_result where
  "wpe_dns = \<lparr>ips = [''141.193.213.10''], cnames = [''site1.wpeproxy.com''], resolved = True\<rparr>"

definition expected_dns :: dns_result where
  "expected_dns = \<lparr>ips = [''203.0.113.5''], cnames = [], resolved = True\<rparr>"

text \<open>Reading a route's reply and a snapshot by position: site \<open>i\<close>, domain \<open>j\<close>.\<close>

definition domain_at :: "site list \<Rightarrow> nat \<Rightarrow> nat \<Rightarrow> site_domain option" where
  "domain_at sts i j =
     (if i < length sts
      then (if j < length (domains (sts ! i)) then Some (domains (sts ! i) ! j) else None)
      else None)"

definition reply_sites :: "data_reply \<Rightarrow> site list" where
  "reply_sites r = (case r of Data sts st \<Rightarrow> sts)"

definition verdicts_of :: "snapshot \<Rightarrow> (string \<times> verdict \<times> string) list" where
  "verdicts_of snap =
     map (\<lambda>sd. (sd_name sd, status sd, detail sd)) (concat (map domains (sites snap)))"

definition refreshed_verdicts :: "env \<Rightarrow> server_state \<Rightarrow> (string \<times> verdict \<times> string) list option" where
  "refreshed_verdicts e st =
     (case refreshData e st of
        Some (Inr (Some snap), st') \<Rightarrow> Some (verdicts_of snap)
      | _ \<Rightarrow> None)"

text \<open>The server as it starts: no snapshot, no refresh running, no override.\<close>

definition idle_state :: server_state where
  "idle_state =
     \<lparr>cachedData = None, isRefreshing = False, refreshProgress = [],
      confirmedDomains = Map.empty, confirmedProto = None, confirmed_file = None\<rparr>"

text \<open>An account of one install that owns the legacy domain \<^verbatim>\<open>c.example.com\<close>, with no
  network details, and a resolver on which every lookup fails.\<close>

definition legacy_domain :: domain where
  "legacy_domain = plain_domain ''c.example.com'' ''d-3'' None"

definition sample_install :: install where
  "sample_install =
     \<lparr>inst_id = ''i-1'', inst_name = ''site1'', inst_environment = ''production'',
      inst_primary_domain = ''c.example.com'', inst_cname = Some ''site1.wpengine.com'',
      inst_php_version = ''8.2''\<rparr>"

definition failing_resolver :: resolver where
  "failing_resolver = \<lparr>resolve4 = (\<lambda>n. None), resolveCname = (\<lambda>n. None)\<rparr>"

definition legacy_env :: env where
  "legacy_env =
     \<lparr>env_api = \<lparr>installs_at = (\<lambda>offset. Inr \<lparr>results = Some [sample_install], next_page = None\<rparr>),
                  domains_at = (\<lambda>i. Inr \<lparr>results = Some [legacy_domain], next_page = None\<rparr>)\<rparr>,
      env_dns = failing_resolver,
      env_now = ''2024-01-01T00:00:00.000Z''\<rparr>"

text \<open>An API whose install listing answers 500.\<close>

definition broken_env :: env where
  "broken_env =
     \<lparr>env_api = \<lparr>installs_at = (\<lambda>offset. Inl (Error ''API 500 on /installs?limit=100&offset=0'')),
                  domains_at = (\<lambda>i. Inr \<lparr>results = Some [], next_page = None\<rparr>)\<rparr>,
      env_dns = failing_resolver,
      env_now = ''2024-01-01T00:00:00.000Z''\<rparr>"

text \<open>A stored snapshot of one site whose only domain was classified issue.\<close>

definition issue_domain :: site_domain where
  "issue_domain =
     \<lparr>sd_name = ''b.example.com'', sd_id = ''d-4'', sd_primary = True, sd_network_type = [],
      sd_redirect_to = None, isSystem = False,
      dns = Some \<lparr>ips = [], cnames = [''cdn.unrelated.net''], resolved = True\<rparr>,
      status = Issue, detail = ''DNS not pointed to WPE'', sslStatus = None,
      expectedCname = None, expectedARecords = [],
      originalStatus = None, originalDetail = None, confirmedAt = None\<rparr>"

definition issue_snapshot :: snapshot where
  "issue_snapshot =
     \<lparr>sites = [\<lparr>site_name = ''site1'', site_id = ''i-1'', site_environment = ''production'',
                 site_primary_domain = ''b.example.com'', site_cname = Some ''site1.wpengine.com'',
                 site_php_version = ''8.2'', domains = [issue_domain],
                 issueCount = 1, pendingCount = 0, confirmedCount = None\<rparr>],
      stats = \<lparr>totalSites = 1, totalDomains = 1, customDomains = 1, good = 0, issues = 1,
               pending = 0, timestamp = ''2024-01-01T00:00:00.000Z'', confirmed = None\<rparr>\<rparr>"

definition serving_state :: server_state where
  "serving_state = idle_state\<lparr>cachedData := Some issue_snapshot\<rparr>"

text \<open>Two calls made together on the fresh server, the first one running and the second
  one waiting; and the end of that, when the listing has answered 500 and the waiter has
  seen the flag clear.\<close>

definition two_calls_state :: config where
  "two_calls_state =
     \<lparr>server = refresh_begin idle_state,
      phases = (\<lambda>x. Idle)(0 := Running, 1 := Waiting), runs = 1\<rparr>"


text \<open>The sample account a day later.\<close>

definition later_env :: env where
  "later_env = legacy_env\<lparr>env_now := ''2024-01-02T00:00:00.000Z''\<rparr>"

section \<open>Properties of the DNS verifier\<close>

text \<open>What \<^const>\<open>dnsPointsToWPE\<close> computes on any record: the flag, and one of the four
  fingerprints.\<close>

lemma dnsPointsToWPE_char:
  "dnsPointsToWPE (Some r) ic idx =
     (resolved r \<and>
      ((\<exists>c\<in>set (cnames r). \<exists>s\<in>set WPE_CNAME_SUFFIXES. endsWith c s) \<or>
       (\<exists>c\<in>set (cnames r). Some c = ic) \<or>
       (\<exists>c\<in>set (cnames r). set_has idx c) \<or>
       (\<exists>ip\<in>set (ips r). \<exists>p\<in>set WPE_IP_PREFIXES. startsWith ip p)))"
  by (auto simp: dnsPointsToWPE_def list_ex_iff set_has_def)

text \<open>Every result of \<^const>\<open>dnsLookup\<close> that holds a record has its flag set, whatever
  the resolver does.\<close>

lemma dnsLookup_records_resolved:
  "ips (dnsLookup rs n) \<noteq> [] \<or> cnames (dnsLookup rs n) \<noteq> [] \<longrightarrow> resolved (dnsLookup rs n)"
  by (auto simp: dnsLookup_def Let_def split: option.splits)

text \<open>When both lookups fail, the result is the initial record: a present, unresolved
  result.\<close>

lemma dnsLookup_fails_entirely:
  "resolve4 rs n = None \<Longrightarrow> resolveCname rs n = None \<Longrightarrow>
   dnsLookup rs n = \<lparr>ips = [], cnames = [], resolved = False\<rparr>"
  by (simp add: dnsLookup_def)

text \<open>
  Claim C8. For a DNS result whose \<open>resolved\<close> flag is set whenever it holds a record
  (the invariant of the data model, which \<open>dnsLookup_records_resolved\<close> establishes for
  every result of \<^const>\<open>dnsLookup\<close>), \<^const>\<open>dnsPointsToWPE\<close> is true exactly when one of the
  four conditions holds: a CNAME ends with a provider suffix, a CNAME equals the install's
  canonical CNAME, a CNAME is in the cross-install index, or an A-record starts with a
  provider prefix. The order of the tests and their short-circuits do not show in the result.
\<close>

theorem dnsPointsToWPE_is_disjunction:
  assumes "ips r \<noteq> [] \<or> cnames r \<noteq> [] \<longrightarrow> resolved r"
  shows "dnsPointsToWPE (Some r) installCname (Some allDomainNames) =
     ((\<exists>c\<in>set (cnames r). \<exists>s\<in>set WPE_CNAME_SUFFIXES. endsWith c s) \<or>
      (\<exists>c\<in>set (cnames r). Some c = installCname) \<or>
      (\<exists>c\<in>set (cnames r). c \<in> allDomainNames) \<or>
      (\<exists>ip\<in>set (ips r). \<exists>p\<in>set WPE_IP_PREFIXES. startsWith ip p))"
  using assms unfolding dnsPointsToWPE_char by (auto simp: set_has_def)

theorem dnsPointsToWPE_is_disjunction_witness:
  "resolved wpe_dns \<and>
   dnsPointsToWPE (Some wpe_dns) (Some ''site1.wpengine.com'') (Some {''a.example.com''}) \<and>
   (\<exists>ip\<in>set (ips wpe_dns). \<exists>p\<in>set WPE_IP_PREFIXES. startsWith ip p)"
proof -
  have wf: "ips wpe_dns \<noteq> [] \<or> cnames wpe_dns \<noteq> [] \<longrightarrow> resolved wpe_dns"
    by (simp add: wpe_dns_def)
  have ip: "\<exists>ip\<in>set (ips wpe_dns). \<exists>p\<in>set WPE_IP_PREFIXES. startsWith ip p"
    by (simp add: wpe_dns_def WPE_IP_PREFIXES_def startsWith_def)
  show ?thesis
    using dnsPointsToWPE_is_disjunction
            [OF wf, of "Some ''site1.wpengine.com''" "{''a.example.com''}"] ip
    by (simp add: wpe_dns_def)
qed

text \<open>
  Claim C9. The claim asks that \<open>resolved\<close> hold exactly when a record was found. The
  CNAME lookup tests the length of its answer; the A lookup sets the flag on any answer.
  When the A lookup returns the empty list and the CNAME lookup fails, the result has the
  flag set and both lists empty.
\<close>

theorem dnsLookup_empty_answer_resolved:
  "dnsLookup \<lparr>resolve4 = (\<lambda>n. Some []), resolveCname = (\<lambda>n. None)\<rparr> ''a.example.com''
     = \<lparr>ips = [], cnames = [], resolved = True\<rparr>"
  by (simp add: dnsLookup_def)

text \<open>Apart from an empty answer of the A lookup, the flag says that a record was found.\<close>

lemma dnsLookup_resolved_iff:
  "resolve4 rs n \<noteq> Some [] \<Longrightarrow>
   resolved (dnsLookup rs n) = (ips (dnsLookup rs n) \<noteq> [] \<or> cnames (dnsLookup rs n) \<noteq> [])"
  by (auto simp: dnsLookup_def Let_def split: option.splits)

section \<open>Properties of the classifier\<close>

text \<open>
  Claim C1. A domain outside the provider's own suffixes whose declared status reads
  ACTIVE in any letter case is classified good, "Active & DNS pointed", when the
  fingerprint matches, or a resolved A-record is among the expected A-records, or a resolved
  CNAME is the expected CNAME; otherwise a present result gives issue, "DNS not pointed to
  WPE" when resolved and "DNS not resolving" when not; with no result at all it is good,
  "Active (API)". The expected CNAME is the one the snapshot shows
  (\<^const>\<open>expectedCname_of\<close>: an empty string counts as none).
\<close>

theorem classify_active:
  assumes "\<not> isSystemName (dom_name d)"
    and "declaredStatus d = Some s" and "toUpperCase s = ''ACTIVE''"
  shows "determineDomainStatus d dnsResult installCname allDomainNames =
    (if dnsPointsToWPE dnsResult installCname allDomainNames
        \<or> (\<exists>r. dnsResult = Some r \<and> set (ips r) \<inter> set (expectedARecords_of d) \<noteq> {})
        \<or> (\<exists>r. dnsResult = Some r \<and> (\<exists>c\<in>set (cnames r). Some c = expectedCname_of d))
     then (Good, ''Active & DNS pointed'')
     else case dnsResult of
            Some r \<Rightarrow> if resolved r then (Issue, ''DNS not pointed to WPE'')
                      else (Issue, ''DNS not resolving'')
          | None \<Rightarrow> (Good, ''Active (API)''))"
proof -
  have ns: "networkStatus_of d = Some ''ACTIVE''"
    using assms(2,3) by (simp add: networkStatus_of_def)
  show ?thesis
  proof (cases dnsResult)
    case None
    then show ?thesis using assms(1) ns
      by (simp add: determineDomainStatus_def dnsMatchesExpected_of_def
            cnameMatchesExpected_of_def dnsPointsToWPE_def)
  next
    case (Some r)
    have a: "dnsMatchesExpected_of d (Some r)
               = (set (ips r) \<inter> set (expectedARecords_of d) \<noteq> {})"
      by (auto simp: dnsMatchesExpected_of_def list_ex_iff)
    have b: "cnameMatchesExpected_of d (Some r)
               = (\<exists>c\<in>set (cnames r). Some c = expectedCname_of d)"
      by (auto simp: cnameMatchesExpected_of_def list_ex_iff truthy_def expectedCname_of_def
            Let_def split: option.splits if_splits)
    show ?thesis using assms(1) ns Some
      by (simp add: determineDomainStatus_def a b Let_def)
  qed
qed

theorem classify_active_witness:
  "\<not> isSystemName (dom_name active_domain) \<and>
   declaredStatus active_domain = Some ''active'' \<and> toUpperCase ''active'' = ''ACTIVE'' \<and>
   determineDomainStatus active_domain (Some expected_dns) None (Some {})
     = (Good, ''Active & DNS pointed'') \<and>
   determineDomainStatus active_domain None None (Some {}) = (Good, ''Active (API)'')"
proof -
  have h1: "\<not> isSystemName (dom_name active_domain)" by code_simp
  have h2: "declaredStatus active_domain = Some ''active''" by code_simp
  have h3: "toUpperCase ''active'' = ''ACTIVE''" by code_simp
  have i: "set (ips expected_dns) \<inter> set (expectedARecords_of active_domain) \<noteq> {}"
    by (simp add: expected_dns_def expectedARecords_of_def active_domain_def plain_domain_def
          with_status_def)
  have n: "\<not> dnsPointsToWPE None None (Some {})"
    by (simp add: dnsPointsToWPE_def)
  show ?thesis
    using classify_active [OF h1 h2 h3, of "Some expected_dns" None "Some {}"]
          classify_active [OF h1 h2 h3, of None None "Some {}"] h1 h2 h3 i n
    by simp
qed

text \<open>
  Claim C3. A domain outside the provider's own suffixes whose declared status reads
  PENDING in any letter case is classified pending, "Pending setup", for every DNS result:
  one that matches the provider fingerprint, any other, and none.
\<close>

theorem classify_pending_ignores_dns:
  assumes "\<not> isSystemName (dom_name d)"
    and "declaredStatus d = Some s" and "toUpperCase s = ''PENDING''"
  shows "determineDomainStatus d dnsResult installCname allDomainNames
           = (Pending, ''Pending setup'')"
proof -
  have "networkStatus_of d = Some ''PENDING''"
    using assms(2,3) by (simp add: networkStatus_of_def)
  then show ?thesis
    using assms(1) by (simp add: determineDomainStatus_def Let_def)
qed

theorem classify_pending_ignores_dns_witness:
  "\<not> isSystemName (dom_name pending_domain) \<and>
   declaredStatus pending_domain = Some ''Pending'' \<and> toUpperCase ''Pending'' = ''PENDING'' \<and>
   dnsPointsToWPE (Some wpe_dns) None (Some {}) \<and>
   determineDomainStatus pending_domain (Some wpe_dns) None (Some {})
     = (Pending, ''Pending setup'') \<and>
   determineDomainStatus pending_domain None None None = (Pending, ''Pending setup'')"
proof -
  have h1: "\<not> isSystemName (dom_name pending_domain)" by code_simp
  have h2: "declaredStatus pending_domain = Some ''Pending''" by code_simp
  have h3: "toUpperCase ''Pending'' = ''PENDING''" by code_simp
  have m: "dnsPointsToWPE (Some wpe_dns) None (Some {})" by code_simp
  show ?thesis
    using classify_pending_ignores_dns [OF h1 h2 h3, of "Some wpe_dns" None "Some {}"]
          classify_pending_ignores_dns [OF h1 h2 h3, of None None None] h1 h2 h3 m
    by simp
qed

section \<open>Properties of the orchestrator\<close>

subsection \<open>Batches\<close>

lemma batchAsync_loop_map:
  "0 < n \<Longrightarrow> batchAsync_loop items n fn i acc = Some (acc @ map fn (drop i items))"
proof (induction "length items - i" arbitrary: i acc rule: less_induct)
  case less
  show ?case
  proof (cases "i < length items")
    case True
    then have "length items - (i + n) < length items - i" using less.prems by arith
    from less.hyps[OF this less.prems]
    have "batchAsync_loop items n fn (i + n) (acc @ map fn (take n (drop i items)))
          = Some ((acc @ map fn (take n (drop i items))) @ map fn (drop (i + n) items))" .
    moreover have "take n (drop i items) @ drop (i + n) items = drop i items"
      by (metis add.commute append_take_drop_id drop_drop)
    ultimately show ?thesis using True
      by (subst batchAsync_loop.simps) (simp flip: map_append)
  next
    case False
    then show ?thesis by (subst batchAsync_loop.simps) simp
  qed
qed

lemma batchAsync_map: "0 < n \<Longrightarrow> batchAsync items n fn = Some (map fn items)"
  by (simp add: batchAsync_def batchAsync_loop_map)

text \<open>With a bound of zero the counter never advances: on a list that is not empty the
  loop does not return.\<close>

lemma batchAsync_loop_zero:
  assumes "batchAsync_loop items n fn i acc = Some ys"
  shows "n = 0 \<longrightarrow> length items \<le> i"
  by (rule batchAsync_loop.raw_induct
        [where P = "\<lambda>items n fn i acc ys. n = 0 \<longrightarrow> length items \<le> i", OF _ assms])
     (fastforce split: if_splits)

lemma batchAsync_zero: "items \<noteq> [] \<Longrightarrow> batchAsync items 0 fn = None"
  using batchAsync_loop_zero[of items 0 fn 0 "[]"]
  by (cases "batchAsync items 0 fn") (auto simp: batchAsync_def)

text \<open>
  Claim C10. For every list, every bound \<open>n \<ge> 1\<close> and every function of the item alone,
  \<^const>\<open>batchAsync\<close> returns, and returns the function applied to each item in input order:
  the sequential map, whatever the bound.
\<close>

theorem batchAsync_is_map:
  assumes "1 \<le> n"
  shows "batchAsync items n fn = Some (map fn items)"
  using assms by (simp add: batchAsync_map)

theorem batchAsync_is_map_witness:
  "(1::nat) \<le> 2 \<and> batchAsync [1, 2, 3, 4, 5 :: nat] 2 Suc = Some [2, 3, 4, 5, 6] \<and>
   batchAsync [1, 2, 3, 4, 5 :: nat] 2 Suc = batchAsync [1, 2, 3, 4, 5] 30 Suc"
proof -
  have h: "(1::nat) \<le> 2" by simp
  have h': "(1::nat) \<le> 30" by simp
  show ?thesis
    using batchAsync_is_map [OF h, of "[1, 2, 3, 4, 5 :: nat]" Suc]
          batchAsync_is_map [OF h', of "[1, 2, 3, 4, 5 :: nat]" Suc]
    by simp
qed

subsection \<open>The install listing and the pipeline\<close>

text \<open>The listing throws as soon as one page does: page \<open>k\<close> fails and every page before it
  announced a next one.\<close>

lemma fetchAllInstalls_loop_fails:
  assumes "installs_at a (offset + 100 * k) = Inl err"
    and "\<forall>j<k. \<exists>data. installs_at a (offset + 100 * j) = Inr data \<and> truthy (next_page data)"
  shows "fetchAllInstalls_loop a acc offset = Some (Inl err)"
  using assms
proof (induction k arbitrary: acc offset)
  case 0
  then show ?case by (subst fetchAllInstalls_loop.simps) simp
next
  case (Suc k)
  from Suc.prems(2) obtain data where d: "installs_at a offset = Inr data" "truthy (next_page data)"
    by (metis add.right_neutral mult_zero_right zero_less_Suc)
  have "fetchAllInstalls_loop a (acc @ results_or_empty data) (offset + 100) = Some (Inl err)"
  proof (rule Suc.IH)
    show "installs_at a (offset + 100 + 100 * k) = Inl err"
      using Suc.prems(1) by (simp add: add.assoc)
    show "\<forall>j<k. \<exists>data. installs_at a (offset + 100 + 100 * j) = Inr data \<and> truthy (next_page data)"
    proof (intro allI impI)
      fix j assume "j < k"
      then have "Suc j < Suc k" by simp
      with Suc.prems(2) obtain dt where "installs_at a (offset + 100 * Suc j) = Inr dt \<and> truthy (next_page dt)"
        by blast
      then show "\<exists>data. installs_at a (offset + 100 + 100 * j) = Inr data \<and> truthy (next_page data)"
        by (auto simp: add.assoc)
    qed
  qed
  then show ?case using d by (subst fetchAllInstalls_loop.simps) simp
qed

lemma fetchAllInstalls_fails:
  assumes "installs_at a (100 * k) = Inl err"
    and "\<forall>j<k. \<exists>data. installs_at a (100 * j) = Inr data \<and> truthy (next_page data)"
  shows "fetchAllInstalls a = Some (Inl err)"
  unfolding fetchAllInstalls_def
  by (rule fetchAllInstalls_loop_fails[where k = k]) (use assms in simp_all)

lemma refreshData_listing_error:
  assumes "\<not> isRefreshing st" and "fetchAllInstalls (env_api e) = Some (Inl err)"
  shows "refreshData e st = Some (Inl err, st\<lparr>isRefreshing := False, refreshProgress := ''Fetching installs...''\<rparr>)"
  using assms by (simp add: refreshData_def refresh_body_def refresh_begin_def)

text \<open>Both batches run with a positive bound, so the stages after the listing always
  return.\<close>

lemma buildSnapshot_eq:
  "buildSnapshot e installs =
     (let installDomains = map (\<lambda>inst. (inst, fetchDomains (env_api e) (inst_id inst))) installs
      in Some (snapshot_of (env_now e) installs
           (siteData_of (dnsResults_of (env_dns e) (allCustomDomains_of installDomains))
              (allDomainNames_of installDomains) installDomains)))"
  by (simp add: buildSnapshot_def batchAsync_map Let_def)

lemma refreshData_success:
  assumes "\<not> isRefreshing st" and "fetchAllInstalls (env_api e) = Some (Inr installs)"
    and "buildSnapshot e installs = Some snap"
  shows "refreshData e st =
           Some (Inr (Some snap),
                 st\<lparr>isRefreshing := False, refreshProgress := [], cachedData := Some snap\<rparr>)"
  using assms by (simp add: refreshData_def refresh_body_def refresh_begin_def)

lemma domain_at_siteData:
  assumes "i < length installDomains" and "j < length (snd (installDomains ! i))"
  shows "domain_at (siteData_of dr names installDomains) i j
           = Some (enrich dr names (fst (installDomains ! i)) (snd (installDomains ! i) ! j))"
  using assms by (simp add: domain_at_def siteData_of_def Let_def split_beta)

lemma allCustomDomains_of_mem:
  "(d, ic) \<in> set (allCustomDomains_of installDomains) \<longleftrightarrow>
     (\<exists>inst ds. (inst, ds) \<in> set installDomains \<and> d \<in> set ds \<and> ic = inst_cname inst \<and>
                \<not> isSystemName (dom_name d))"
  by (auto simp: allCustomDomains_of_def isSystemName_def)

lemma enrich_verdict:
  "determineDomainStatus d (dr (dom_id d)) (inst_cname inst) (Some names) = (v, det) \<Longrightarrow>
   sd_name (enrich dr names inst d) = dom_name d \<and> status (enrich dr names inst d) = v \<and>
   detail (enrich dr names inst d) = det"
  by (simp add: enrich_def Let_def)

text \<open>The DNS result stored under an id is the lookup of some custom domain with that
  id, in whatever order the stores happen.\<close>

lemma dnsResults_of_snoc:
  "dnsResults_of r (ds @ [(d, ic)]) = (dnsResults_of r ds)(dom_id d \<mapsto> dnsLookup r (dom_name d))"
  by (simp add: dnsResults_of_def)

lemma dnsResults_of_lookup:
  "(d, ic) \<in> set ds \<Longrightarrow>
   \<exists>d' ic'. (d', ic') \<in> set ds \<and> dom_id d' = dom_id d \<and>
            dnsResults_of r ds (dom_id d) = Some (dnsLookup r (dom_name d'))"
proof (induction ds rule: rev_induct)
  case Nil
  then show ?case by simp
next
  case (snoc x xs)
  obtain d0 ic0 where x: "x = (d0, ic0)" by (cases x)
  show ?case
  proof (cases "dom_id d0 = dom_id d")
    case True
    then show ?thesis unfolding x dnsResults_of_snoc by auto
  next
    case False
    then have "(d, ic) \<in> set xs" using snoc.prems x by auto
    from snoc.IH[OF this] show ?thesis unfolding x dnsResults_of_snoc using False by auto
  qed
qed

lemma classify_legacy_unresolved:
  assumes "\<not> isSystemName (dom_name d)" and "\<not> truthy (declaredStatus d)" and "\<not> resolved r"
  shows "determineDomainStatus d (Some r) ic idx = (Issue, ''DNS not resolving'')"
proof -
  have "networkStatus_of d = None \<or> networkStatus_of d = Some []"
    using assms(2) by (auto simp: networkStatus_of_def truthy_def toUpperCase_def split: option.splits)
  then show ?thesis using assms(1,3)
    by (auto simp: determineDomainStatus_def Let_def dnsPointsToWPE_def truthy_def)
qed

text \<open>Upper-casing leaves no small letter, so the raw status shown by the last branch is
  never the text "No status data": with a DNS result present, that verdict is not given.\<close>

lemma toUpperChar_not_lower: "toUpperChar c \<noteq> CHR ''o''"
proof (cases "97 \<le> (of_char c :: nat) \<and> (of_char c :: nat) \<le> 122")
  case True
  then have "toUpperChar c = char_of ((of_char c :: nat) - 32)"
    by (simp add: toUpperChar_def Let_def)
  moreover have "(of_char (char_of ((of_char c :: nat) - 32)) :: nat) = of_char c - 32"
  proof -
    have "(of_char c :: nat) - 32 < 256" using True by arith
    then show ?thesis by (simp add: of_char_of)
  qed
  ultimately have "(of_char (toUpperChar c) :: nat) = of_char c - 32" by simp
  then have "(of_char (toUpperChar c) :: nat) \<noteq> 111" using True by arith
  then show ?thesis by auto
next
  case False
  then have "toUpperChar c = c" by (auto simp: toUpperChar_def Let_def)
  moreover have "(of_char c :: nat) \<noteq> 111" using False by arith
  ultimately show ?thesis by auto
qed

lemma toUpperCase_not_no_status: "toUpperCase s \<noteq> ''No status data''"
proof
  assume "toUpperCase s = ''No status data''"
  then have "CHR ''o'' \<in> set (map toUpperChar s)" by (simp add: toUpperCase_def)
  then obtain c where "toUpperChar c = CHR ''o''" by auto
  then show False using toUpperChar_not_lower[of c] by simp
qed

lemma classify_result_not_no_status:
  "determineDomainStatus d (Some r) ic idx \<noteq> (Unknown, ''No status data'')"
proof (cases "declaredStatus d")
  case None
  then show ?thesis
    by (simp add: determineDomainStatus_def networkStatus_of_def Let_def truthy_def)
next
  case (Some s)
  then show ?thesis
    using toUpperCase_not_no_status[of s]
    by (simp add: determineDomainStatus_def networkStatus_of_def Let_def truthy_def)
qed

lemma verdicts_of_snapshot:
  "verdicts_of (snapshot_of now installs siteData)
     = map (\<lambda>sd. (sd_name sd, status sd, detail sd)) (concat (map domains siteData))"
  by (simp add: verdicts_of_def snapshot_of_def Let_def)

lemma domains_siteData:
  "map domains (siteData_of dr names installDomains)
     = map (\<lambda>(inst, ds). map (enrich dr names inst) ds) installDomains"
  by (simp add: siteData_of_def Let_def split_beta)

subsection \<open>The sample account\<close>

lemma legacy_listing: "fetchAllInstalls (env_api legacy_env) = Some (Inr [sample_install])"
  unfolding fetchAllInstalls_def
  by (subst fetchAllInstalls_loop.simps)
     (simp add: legacy_env_def truthy_def results_or_empty_def)

lemma legacy_domains: "fetchDomains (env_api legacy_env) i = [legacy_domain]"
  by (simp add: legacy_env_def fetchDomains_def results_or_empty_def)

lemma legacy_custom: "\<not> isSystemName (dom_name legacy_domain)"
  by (simp add: legacy_domain_def plain_domain_def isSystemName_def endsWith_def)

lemma legacy_status: "declaredStatus legacy_domain = None"
  by (simp add: legacy_domain_def plain_domain_def declaredStatus_def)

lemma legacy_dnsResults:
  "dnsResults_of failing_resolver (allCustomDomains_of [(sample_install, [legacy_domain])]) (dom_id legacy_domain)
     = Some \<lparr>ips = [], cnames = [], resolved = False\<rparr>"
  using legacy_custom
  by (simp add: allCustomDomains_of_def dnsResults_of_def isSystemName_def dnsLookup_def failing_resolver_def)

lemma legacy_verdicts:
  "map_option verdicts_of (buildSnapshot legacy_env [sample_install])
     = Some [(''c.example.com'', Issue, ''DNS not resolving'')]"
proof -
  let ?ids = "[(sample_install, [legacy_domain])]"
  let ?dr = "dnsResults_of failing_resolver (allCustomDomains_of ?ids)"
  let ?names = "allDomainNames_of ?ids"
  have e: "env_dns legacy_env = failing_resolver" by (simp add: legacy_env_def)
  have "determineDomainStatus legacy_domain (?dr (dom_id legacy_domain))
             (inst_cname sample_install) (Some ?names)
           = (Issue, ''DNS not resolving'')"
    unfolding legacy_dnsResults
    by (rule classify_legacy_unresolved) (simp_all add: legacy_custom legacy_status truthy_def)
  then have v: "sd_name (enrich ?dr ?names sample_install legacy_domain) = dom_name legacy_domain \<and>
     status (enrich ?dr ?names sample_install legacy_domain) = Issue \<and>
     detail (enrich ?dr ?names sample_install legacy_domain) = ''DNS not resolving''"
    by (rule enrich_verdict)
  have n: "dom_name legacy_domain = ''c.example.com''"
    by (simp add: legacy_domain_def plain_domain_def)
  have b: "buildSnapshot legacy_env [sample_install]
          = Some (snapshot_of (env_now legacy_env) [sample_install] (siteData_of ?dr ?names ?ids))"
    by (simp add: buildSnapshot_eq legacy_domains e Let_def)
  show ?thesis
    unfolding b using v n by (simp add: verdicts_of_snapshot domains_siteData)
qed

subsection \<open>A failed listing\<close>

text \<open>
  Claim C7. A call of \<^const>\<open>refreshData\<close> that starts a pipeline (the flag is clear) and
  whose install listing throws returns that error to its caller, clears the flag, and leaves
  \<^const>\<open>cachedData\<close> as it was; \<^verbatim>\<open>GET /api/data\<close> answers after the call what it
  answered before it.
\<close>

theorem refreshData_failed_listing_keeps_snapshot:
  assumes "\<not> isRefreshing st"
    and "installs_at (env_api e) (100 * k) = Inl err"
    and "\<forall>j<k. \<exists>data. installs_at (env_api e) (100 * j) = Inr data \<and> truthy (next_page data)"
  shows "\<exists>st'. refreshData e st = Some (Inl err, st') \<and> cachedData st' = cachedData st \<and>
               \<not> isRefreshing st' \<and> fst (get_api_data st') = fst (get_api_data st)"
proof -
  have "fetchAllInstalls (env_api e) = Some (Inl err)"
    by (rule fetchAllInstalls_fails[OF assms(2,3)])
  from refreshData_listing_error[OF assms(1) this]
  show ?thesis by (simp add: get_api_data_def split: option.splits)
qed

theorem refreshData_failed_listing_keeps_snapshot_witness:
  "\<exists>st'. refreshData broken_env serving_state
            = Some (Inl (Error ''API 500 on /installs?limit=100&offset=0''), st') \<and>
         cachedData st' = Some issue_snapshot \<and> \<not> isRefreshing st' \<and>
         fst (get_api_data st') = fst (get_api_data serving_state)"
proof -
  have h1: "\<not> isRefreshing serving_state"
    by (simp add: serving_state_def idle_state_def)
  have h2: "installs_at (env_api broken_env) (100 * 0)
              = Inl (Error ''API 500 on /installs?limit=100&offset=0'')"
    by (simp add: broken_env_def)
  have h3: "\<forall>j<(0::nat). \<exists>data. installs_at (env_api broken_env) (100 * j) = Inr data
              \<and> truthy (next_page data)"
    by simp
  have c: "cachedData serving_state = Some issue_snapshot"
    by (simp add: serving_state_def)
  show ?thesis
    using refreshData_failed_listing_keeps_snapshot [OF h1 h2 h3] c by simp
qed

subsection \<open>A legacy domain that does not resolve\<close>

text \<open>
  Claim C2, as the code has it. For a domain outside the provider's own suffixes with no
  declared network status, whose A lookup and CNAME lookup both fail, \<^const>\<open>dnsLookup\<close>
  still returns a result (empty, unresolved), the pipeline stores it under the domain's
  id, and the classification is issue, "DNS not resolving". The domain is read at its place
  in the listing: install \<open>i\<close>, domain \<open>j\<close>; its id is not the id of a domain of another
  name. Unknown, "No status data" is the verdict of no domain that has a DNS result.
\<close>

theorem refresh_classifies_unresolved_legacy:
  assumes idle: "\<not> isRefreshing st"
    and listing: "fetchAllInstalls (env_api e) = Some (Inr installs)"
    and i: "i < length installs"
    and j: "j < length (fetchDomains (env_api e) (inst_id (installs ! i)))"
    and d: "d = fetchDomains (env_api e) (inst_id (installs ! i)) ! j"
    and custom: "\<not> isSystemName (dom_name d)"
    and legacy: "declaredStatus d = None"
    and noA: "resolve4 (env_dns e) (dom_name d) = None"
    and noC: "resolveCname (env_dns e) (dom_name d) = None"
    and ids: "\<forall>inst\<in>set installs. \<forall>d'\<in>set (fetchDomains (env_api e) (inst_id inst)).
                dom_id d' = dom_id d \<longrightarrow> dom_name d' = dom_name d"
  shows "(\<exists>snap st' sd. refreshData e st = Some (Inr (Some snap), st') \<and>
            cachedData st' = Some snap \<and> domain_at (sites snap) i j = Some sd \<and>
            sd_name sd = dom_name d \<and> status sd = Issue \<and> detail sd = ''DNS not resolving'') \<and>
         (\<forall>d' r ic idx.
            determineDomainStatus d' (Some r) ic idx \<noteq> (Unknown, ''No status data''))"
proof -
  define installDomains where
    "installDomains = map (\<lambda>inst. (inst, fetchDomains (env_api e) (inst_id inst))) installs"
  define dr where "dr = dnsResults_of (env_dns e) (allCustomDomains_of installDomains)"
  define names where "names = allDomainNames_of installDomains"
  define snap where "snap = snapshot_of (env_now e) installs (siteData_of dr names installDomains)"
  have build: "buildSnapshot e installs = Some snap"
    by (simp add: buildSnapshot_eq Let_def snap_def dr_def names_def installDomains_def)
  have run: "refreshData e st =
           Some (Inr (Some snap),
                 st\<lparr>isRefreshing := False, refreshProgress := [], cachedData := Some snap\<rparr>)"
    by (rule refreshData_success[OF idle listing build])
  have nth: "installDomains ! i = (installs ! i, fetchDomains (env_api e) (inst_id (installs ! i)))"
    using i by (simp add: installDomains_def)
  have at: "domain_at (sites snap) i j = Some (enrich dr names (installs ! i) d)"
    using domain_at_siteData[of i installDomains j dr names] i j nth d
    by (simp add: snap_def snapshot_of_def Let_def installDomains_def)
  have "installDomains ! i \<in> set installDomains"
    using i by (intro nth_mem) (simp add: installDomains_def)
  then have pair: "(installs ! i, fetchDomains (env_api e) (inst_id (installs ! i)))
                     \<in> set installDomains"
    by (simp add: nth)
  have "d \<in> set (fetchDomains (env_api e) (inst_id (installs ! i)))"
    using j d by simp
  with pair custom
  have mem: "(d, inst_cname (installs ! i)) \<in> set (allCustomDomains_of installDomains)"
    unfolding allCustomDomains_of_mem by blast
  from dnsResults_of_lookup[OF mem, of "env_dns e"]
  obtain d' ic' where d': "(d', ic') \<in> set (allCustomDomains_of installDomains)"
      "dom_id d' = dom_id d" "dr (dom_id d) = Some (dnsLookup (env_dns e) (dom_name d'))"
    unfolding dr_def by blast
  from d'(1) obtain inst where
    "inst \<in> set installs" "d' \<in> set (fetchDomains (env_api e) (inst_id inst))"
    unfolding allCustomDomains_of_mem by (auto simp: installDomains_def)
  with ids d'(2) have "dom_name d' = dom_name d" by blast
  then have look: "dr (dom_id d) = Some \<lparr>ips = [], cnames = [], resolved = False\<rparr>"
    using d'(3) noA noC by (simp add: dnsLookup_fails_entirely)
  have "determineDomainStatus d (dr (dom_id d)) (inst_cname (installs ! i)) (Some names)
          = (Issue, ''DNS not resolving'')"
    unfolding look using custom legacy
    by (intro classify_legacy_unresolved) (simp_all add: truthy_def)
  then have "sd_name (enrich dr names (installs ! i) d) = dom_name d \<and>
             status (enrich dr names (installs ! i) d) = Issue \<and>
             detail (enrich dr names (installs ! i) d) = ''DNS not resolving''"
    by (rule enrich_verdict)
  with at run
  have "\<exists>snap st' sd. refreshData e st = Some (Inr (Some snap), st') \<and>
          cachedData st' = Some snap \<and> domain_at (sites snap) i j = Some sd \<and>
          sd_name sd = dom_name d \<and> status sd = Issue \<and> detail sd = ''DNS not resolving''"
    by simp
  then show ?thesis using classify_result_not_no_status by blast
qed

theorem refresh_classifies_unresolved_legacy_witness:
  "\<exists>snap st' sd. refreshData legacy_env idle_state = Some (Inr (Some snap), st') \<and>
     cachedData st' = Some snap \<and> domain_at (sites snap) 0 0 = Some sd \<and>
     sd_name sd = ''c.example.com'' \<and> status sd = Issue \<and> detail sd = ''DNS not resolving''"
proof -
  have idle: "\<not> isRefreshing idle_state" by (simp add: idle_state_def)
  have i: "0 < length [sample_install]" by simp
  have j: "0 < length (fetchDomains (env_api legacy_env) (inst_id ([sample_install] ! 0)))"
    by (simp add: legacy_domains)
  have d: "legacy_domain = fetchDomains (env_api legacy_env) (inst_id ([sample_install] ! 0)) ! 0"
    by (simp add: legacy_domains)
  have noA: "resolve4 (env_dns legacy_env) (dom_name legacy_domain) = None"
    by (simp add: legacy_env_def failing_resolver_def)
  have noC: "resolveCname (env_dns legacy_env) (dom_name legacy_domain) = None"
    by (simp add: legacy_env_def failing_resolver_def)
  have ids: "\<forall>inst\<in>set [sample_install].
               \<forall>d'\<in>set (fetchDomains (env_api legacy_env) (inst_id inst)).
                 dom_id d' = dom_id legacy_domain \<longrightarrow> dom_name d' = dom_name legacy_domain"
    by (simp add: legacy_domains)
  have n: "dom_name legacy_domain = ''c.example.com''"
    by (simp add: legacy_domain_def plain_domain_def)
  show ?thesis
    using refresh_classifies_unresolved_legacy
            [OF idle legacy_listing i j d legacy_custom legacy_status noA noC ids]
    unfolding n by (rule conjunct1)
qed

text \<open>The scenario of the specification, run through the pipeline: one install, the domain
  \<^verbatim>\<open>c.example.com\<close> without network details, every lookup failing. The verdict is issue,
  not unknown.\<close>

theorem refresh_unresolved_legacy_not_unknown:
  "\<not> isSystemName (dom_name legacy_domain) \<and> declaredStatus legacy_domain = None \<and>
   resolve4 (env_dns legacy_env) (dom_name legacy_domain) = None \<and>
   resolveCname (env_dns legacy_env) (dom_name legacy_domain) = None \<and>
   refreshed_verdicts legacy_env idle_state
     = Some [(''c.example.com'', Issue, ''DNS not resolving'')] \<and>
   refreshed_verdicts legacy_env idle_state
     \<noteq> Some [(''c.example.com'', Unknown, ''No status data'')]"
proof -
  obtain snap where b: "buildSnapshot legacy_env [sample_install] = Some snap"
    and v: "verdicts_of snap = [(''c.example.com'', Issue, ''DNS not resolving'')]"
    using legacy_verdicts by auto
  have "\<not> isRefreshing idle_state" by (simp add: idle_state_def)
  from refreshData_success[OF this legacy_listing b] v
  have "refreshed_verdicts legacy_env idle_state
          = Some [(''c.example.com'', Issue, ''DNS not resolving'')]"
    by (simp add: refreshed_verdicts_def)
  then show ?thesis
    using legacy_custom legacy_status
    by (simp add: legacy_env_def failing_resolver_def)
qed

section \<open>Properties of the override store\<close>

lemma post_confirm_store:
  "x \<noteq> [] \<Longrightarrow> x \<noteq> ''__proto__'' \<Longrightarrow>
   confirmedDomains (snd (post_confirm now w (Some x) st))
     = (confirmedDomains st)(x \<mapsto> \<lparr>ov_confirmedAt = now\<rparr>) \<and>
   confirmedProto (snd (post_confirm now w (Some x) st)) = confirmedProto st"
  by (simp add: post_confirm_def assign_confirmed_def saveConfirmed_def Let_def)

lemma delete_confirm_store:
  "x \<noteq> [] \<Longrightarrow>
   confirmedDomains (snd (delete_confirm w (Some x) st)) = (confirmedDomains st)(x := None) \<and>
   confirmedProto (snd (delete_confirm w (Some x) st)) = confirmedProto st"
  by (simp add: delete_confirm_def saveConfirmed_def Let_def)

lemma post_confirm_cached: "cachedData (snd (post_confirm now w b st)) = cachedData st"
  by (simp add: post_confirm_def assign_confirmed_def saveConfirmed_def Let_def
        split: option.splits)

lemma delete_confirm_cached: "cachedData (snd (delete_confirm w b st)) = cachedData st"
  by (simp add: delete_confirm_def saveConfirmed_def Let_def split: option.splits)

lemma get_api_data_state: "snd (get_api_data st) = st"
  by (simp add: get_api_data_def split: option.splits)

text \<open>An empty name is refused by both routes and changes nothing.\<close>

lemma confirm_empty_name:
  "post_confirm now w (Some []) st = (BadRequest ''domain is required'', st) \<and>
   delete_confirm w (Some []) st = (BadRequest ''domain is required'', st)"
  by (simp add: post_confirm_def delete_confirm_def)

text \<open>The projection works domain by domain, in place.\<close>

lemma domain_at_projection:
  "domain_at (sites snap) i j = Some d \<Longrightarrow> cachedData st = Some snap \<Longrightarrow>
   domain_at (reply_sites (fst (get_api_data st))) i j
     = Some (override_domain (confirmedDomains st) (confirmedProto st) d)"
  by (auto simp: get_api_data_def applyConfirmedOverrides_def reply_sites_def domain_at_def
        override_site_def Let_def split: if_splits)

text \<open>
  The dictionary is a plain object, so a name it inherits reads as confirmed with no entry
  of its own: an issue domain called \<^verbatim>\<open>constructor\<close> is shown confirmed on the empty
  store, and \<^verbatim>\<open>delete\<close> does not change that. No name with a dot in it is inherited.
\<close>

lemma inherited_name_shown_confirmed:
  assumes "status d = Issue" and "sd_name d = ''constructor''"
  shows "status (override_domain Map.empty None d) = Confirmed"
    and "status (override_domain ((confirmedDomains st)(''constructor'' := None))
                   (confirmedProto st) d) = Confirmed"
  using assms
  by (simp_all add: override_domain_def read_confirmed_def Object_prototype_members_def)

lemma dotted_name_not_inherited: "CHR ''.'' \<in> set k \<Longrightarrow> \<not> inherits proto k"
  by (auto simp: inherits_def Object_prototype_members_def)

text \<open>
  Claim C5, as the code has it. Each \<^verbatim>\<open>confirm\<close> writes the current time into the
  entry, so a second \<^verbatim>\<open>confirm(x)\<close> changes the entry of \<open>x\<close>: the override state after
  two calls is the state a single call made at the second call's time gives (reply
  included, when the file is written), and the confirmed names are those after the first
  call. \<^verbatim>\<open>unconfirm(x)\<close> of a name that is not confirmed leaves the dictionary as it is
  and answers ok. The name is not empty. The same holds of the prototype that
  \<^verbatim>\<open>confirm('__proto__')\<close> installs.
\<close>

theorem confirm_twice_keeps_latest:
  assumes "x \<noteq> []"
  shows "post_confirm t2 True (Some x) (snd (post_confirm t1 w1 (Some x) st))
           = post_confirm t2 True (Some x) st \<and>
         confirmedDomains (snd (post_confirm t2 w2 (Some x) (snd (post_confirm t1 w1 (Some x) st))))
           = confirmedDomains (snd (post_confirm t2 w2 (Some x) st)) \<and>
         dom (confirmedDomains
                (snd (post_confirm t2 w2 (Some x) (snd (post_confirm t1 w1 (Some x) st)))))
           = dom (confirmedDomains (snd (post_confirm t1 w1 (Some x) st))) \<and>
         (confirmedDomains st x = None \<longrightarrow>
            confirmedDomains (snd (delete_confirm w (Some x) st)) = confirmedDomains st \<and>
            fst (delete_confirm True (Some x) st) = ConfirmOk x False) \<and>
         confirmedProto (snd (post_confirm t2 w2 (Some x) (snd (post_confirm t1 w1 (Some x) st))))
           = confirmedProto (snd (post_confirm t2 w2 (Some x) st)) \<and>
         confirmedProto (snd (delete_confirm w (Some x) st)) = confirmedProto st"
  using assms
  by (auto simp: post_confirm_def delete_confirm_def assign_confirmed_def saveConfirmed_def
        Let_def)

theorem confirm_twice_keeps_latest_witness:
  "confirmedDomains
     (snd (post_confirm ''2024-01-02T00:00:00.000Z'' True (Some ''a.example.com'')
        (snd (post_confirm ''2024-01-01T00:00:00.000Z'' True (Some ''a.example.com'')
                idle_state))))
     = [''a.example.com'' \<mapsto> \<lparr>ov_confirmedAt = ''2024-01-02T00:00:00.000Z''\<rparr>] \<and>
   delete_confirm True (Some ''a.example.com'') idle_state
     = (ConfirmOk ''a.example.com'' False, idle_state\<lparr>confirmed_file := Some Map.empty\<rparr>)"
proof -
  have h: "''a.example.com'' \<noteq> []" by simp
  have n: "confirmedDomains idle_state ''a.example.com'' = None"
    by (simp add: idle_state_def)
  have e: "confirmedDomains idle_state = Map.empty"
    by (simp add: idle_state_def)
  have a: "confirmedDomains
     (snd (post_confirm ''2024-01-02T00:00:00.000Z'' True (Some ''a.example.com'')
        (snd (post_confirm ''2024-01-01T00:00:00.000Z'' True (Some ''a.example.com'')
                idle_state))))
     = [''a.example.com'' \<mapsto> \<lparr>ov_confirmedAt = ''2024-01-02T00:00:00.000Z''\<rparr>]"
    using confirm_twice_keeps_latest
            [OF h, of "''2024-01-02T00:00:00.000Z''" "''2024-01-01T00:00:00.000Z''" True
               idle_state True True]
    by (simp add: post_confirm_store e)
  have b: "delete_confirm True (Some ''a.example.com'') idle_state
     = (ConfirmOk ''a.example.com'' False, idle_state\<lparr>confirmed_file := Some Map.empty\<rparr>)"
    by (simp add: delete_confirm_def saveConfirmed_def idle_state_def)
  from a b show ?thesis by simp
qed

text \<open>Two calls a day apart, on the empty store: the entry holds the second day, a single
  call the first.\<close>

theorem confirm_twice_changes_timestamp:
  "confirmedDomains
     (snd (post_confirm ''2024-01-02T00:00:00.000Z'' True (Some ''a.example.com'')
        (snd (post_confirm ''2024-01-01T00:00:00.000Z'' True (Some ''a.example.com'')
                idle_state))))
   \<noteq> confirmedDomains
       (snd (post_confirm ''2024-01-01T00:00:00.000Z'' True (Some ''a.example.com'') idle_state))"
proof
  assume "confirmedDomains
     (snd (post_confirm ''2024-01-02T00:00:00.000Z'' True (Some ''a.example.com'')
        (snd (post_confirm ''2024-01-01T00:00:00.000Z'' True (Some ''a.example.com'')
                idle_state))))
   = confirmedDomains
       (snd (post_confirm ''2024-01-01T00:00:00.000Z'' True (Some ''a.example.com'') idle_state))"
  then have "confirmedDomains
     (snd (post_confirm ''2024-01-02T00:00:00.000Z'' True (Some ''a.example.com'')
        (snd (post_confirm ''2024-01-01T00:00:00.000Z'' True (Some ''a.example.com'')
                idle_state)))) ''a.example.com''
   = confirmedDomains
       (snd (post_confirm ''2024-01-01T00:00:00.000Z'' True (Some ''a.example.com'') idle_state))
       ''a.example.com''"
    by simp
  then show False by (simp add: post_confirm_store)
qed

text \<open>
  Claim C4. Take a stored snapshot and a domain in it, at site \<open>i\<close> and place \<open>j\<close>,
  classified issue, with a name (\<^verbatim>\<open>confirm\<close> refuses an empty one) that the dictionary
  object does not inherit (see \<open>inherited_name_shown_confirmed\<close> above). After
  \<^verbatim>\<open>confirm(name)\<close>, the projection shows that domain as confirmed, with
  \<open>originalDetail\<close> the stored reason; after a following \<^verbatim>\<open>unconfirm(name)\<close>, the
  projection shows the stored domain itself, every field as it was. The stored snapshot is
  the same throughout: nothing is fetched again and nothing is written into it.
\<close>

theorem confirm_unconfirm_round_trip:
  assumes "cachedData st = Some snap" and "domain_at (sites snap) i j = Some d"
    and "status d = Issue" and "sd_name d \<noteq> []"
    and "\<not> inherits (confirmedProto st) (sd_name d)"
  shows "domain_at (reply_sites (fst (confirm_then_view now w1 (sd_name d) st))) i j
           = Some (d\<lparr>status := Confirmed, originalStatus := Some Issue,
                     originalDetail := Some (detail d), detail := ''Confirmed OK'',
                     confirmedAt := Some now\<rparr>) \<and>
         domain_at (reply_sites (fst (unconfirm_then_view w2 (sd_name d)
                       (snd (confirm_then_view now w1 (sd_name d) st))))) i j
           = Some d \<and>
         cachedData (snd (confirm_then_view now w1 (sd_name d) st)) = Some snap \<and>
         cachedData (snd (unconfirm_then_view w2 (sd_name d)
                       (snd (confirm_then_view now w1 (sd_name d) st)))) = Some snap"
proof -
  let ?st1 = "snd (post_confirm now w1 (Some (sd_name d)) st)"
  let ?st2 = "snd (delete_confirm w2 (Some (sd_name d)) ?st1)"
  have c1: "cachedData ?st1 = Some snap" using assms(1) by (simp add: post_confirm_cached)
  have c2: "cachedData ?st2 = Some snap" using c1 by (simp add: delete_confirm_cached)
  have np: "sd_name d \<noteq> ''__proto__''"
    using assms(5) by (auto simp: inherits_def Object_prototype_members_def)
  have s1: "confirmedDomains ?st1 (sd_name d) = Some \<lparr>ov_confirmedAt = now\<rparr>"
    using assms(4) np by (simp add: post_confirm_store)
  have q1: "confirmedProto ?st1 = confirmedProto st"
    using assms(4) np by (simp add: post_confirm_store)
  have s2: "confirmedDomains ?st2 (sd_name d) = None"
    using assms(4) by (simp add: delete_confirm_store)
  have q2: "confirmedProto ?st2 = confirmedProto st"
    using assms(4) q1 by (simp add: delete_confirm_store)
  have p1: "domain_at (reply_sites (fst (get_api_data ?st1))) i j
              = Some (override_domain (confirmedDomains ?st1) (confirmedProto ?st1) d)"
    by (rule domain_at_projection[OF assms(2) c1])
  have p2: "domain_at (reply_sites (fst (get_api_data ?st2))) i j
              = Some (override_domain (confirmedDomains ?st2) (confirmedProto ?st2) d)"
    by (rule domain_at_projection[OF assms(2) c2])
  have o1: "override_domain (confirmedDomains ?st1) (confirmedProto ?st1) d
              = d\<lparr>status := Confirmed, originalStatus := Some Issue,
                  originalDetail := Some (detail d), detail := ''Confirmed OK'',
                  confirmedAt := Some now\<rparr>"
    using s1 assms(3) by (simp add: override_domain_def read_confirmed_def)
  have "read_confirmed (confirmedDomains ?st2) (confirmedProto st) (sd_name d) = None"
    using s2 assms(5) np
    by (cases "confirmedProto st") (auto simp: read_confirmed_def inherits_def truthy_def)
  then have o2: "override_domain (confirmedDomains ?st2) (confirmedProto ?st2) d = d"
    using assms(3) q2 by (simp add: override_domain_def)
  show ?thesis
    using p1 p2 o1 o2 c1 c2
    by (simp add: confirm_then_view_def unconfirm_then_view_def get_api_data_state)
qed

theorem confirm_unconfirm_round_trip_witness:
  "domain_at (reply_sites (fst (confirm_then_view ''2024-01-03T00:00:00.000Z'' True
                                  ''b.example.com'' serving_state))) 0 0
     = Some (issue_domain\<lparr>status := Confirmed, originalStatus := Some Issue,
               originalDetail := Some ''DNS not pointed to WPE'', detail := ''Confirmed OK'',
               confirmedAt := Some ''2024-01-03T00:00:00.000Z''\<rparr>) \<and>
   domain_at (reply_sites (fst (unconfirm_then_view True ''b.example.com''
                 (snd (confirm_then_view ''2024-01-03T00:00:00.000Z'' True
                         ''b.example.com'' serving_state))))) 0 0
     = Some issue_domain"
proof -
  have h1: "cachedData serving_state = Some issue_snapshot"
    by (simp add: serving_state_def)
  have h2: "domain_at (sites issue_snapshot) 0 0 = Some issue_domain"
    by (simp add: domain_at_def issue_snapshot_def)
  have h3: "status issue_domain = Issue" by (simp add: issue_domain_def)
  have n: "sd_name issue_domain = ''b.example.com''" by (simp add: issue_domain_def)
  have h4: "sd_name issue_domain \<noteq> []" by (simp add: n)
  have h5: "\<not> inherits (confirmedProto serving_state) (sd_name issue_domain)"
    by (simp add: n inherits_def Object_prototype_members_def serving_state_def idle_state_def)
  have dt: "detail issue_domain = ''DNS not pointed to WPE''" by (simp add: issue_domain_def)
  show ?thesis
    using confirm_unconfirm_round_trip
            [OF h1 h2 h3 h4 h5, of "''2024-01-03T00:00:00.000Z''" True True]
    unfolding n dt by simp
qed

section \<open>Properties of concurrent refreshes\<close>


lemma refresh_body_success:
  assumes "fetchAllInstalls (env_api e) = Some (Inr installs)"
  shows "\<exists>snap. refresh_body e st
                  = Some (Inr (Some snap),
                          st\<lparr>cachedData := Some snap, refreshProgress := [],
                             isRefreshing := False\<rparr>) \<and>
                timestamp (stats snap) = env_now e"
  using assms
  by (simp add: refresh_body_def buildSnapshot_eq Let_def snapshot_of_def)



text \<open>Left alone, a call that finds the flag set polls for ever: somebody else has to
  clear the flag.\<close>

lemma waitForRefresh_Some: "waitForRefresh st = Some y \<Longrightarrow> \<not> isRefreshing st"
proof (rule waitForRefresh.raw_induct[where P = "\<lambda>st y. \<not> isRefreshing st"])
  fix f st y
  assume "\<And>x y. f x = Some y \<Longrightarrow> \<not> isRefreshing x"
    and "(if \<not> isRefreshing st then Some (cachedData st) else f st) = Some y"
  then show "\<not> isRefreshing st" by (auto split: if_splits)
qed

lemma waitForRefresh_blocked: "isRefreshing st \<Longrightarrow> waitForRefresh st = None"
  using waitForRefresh_Some by (cases "waitForRefresh st") auto

lemma refreshData_blocked: "isRefreshing st \<Longrightarrow> refreshData e st = None"
  by (simp add: refreshData_def waitForRefresh_blocked)

subsection \<open>At most one pipeline at a time\<close>






subsection \<open>A caller that waits\<close>



subsection \<open>Runs of the sample server\<close>

lemma step_startI:
  "phases c a = Idle \<Longrightarrow> \<not> isRefreshing (server c) \<Longrightarrow>
   c' = c\<lparr>server := refresh_begin (server c), phases := (phases c)(a := Running),
           runs := Suc (runs c)\<rparr> \<Longrightarrow> step c c'"
  by (simp add: step.start)



lemma step_returnI:
  "phases c a = Running \<Longrightarrow> refresh_body e (server c) = Some (Inr data, st') \<Longrightarrow>
   c' = c\<lparr>server := st', phases := (phases c)(a := Returned data)\<rparr> \<Longrightarrow> step c c'"
  using step.finish[of c a e "Inr data" st'] by simp

lemma step_pollI:
  "phases c a = Waiting \<Longrightarrow> \<not> isRefreshing (server c) \<Longrightarrow>
   c' = c\<lparr>phases := (phases c)(a := Returned (cachedData (server c)))\<rparr> \<Longrightarrow> step c c'"
  by (simp add: step.poll)




lemma later_listing: "fetchAllInstalls (env_api later_env) = Some (Inr [sample_install])"
  using legacy_listing by (simp add: later_env_def)

text \<open>A third call made after the run is over and before the waiter's tick starts a second
  pipeline, and the waiter returns the snapshot of that one.\<close>

lemma later_refresh_reaches_waiter:
  "\<exists>c da db. step\<^sup>*\<^sup>* two_calls_state c \<and> runs c = Suc (runs two_calls_state) \<and>
     phases c 0 = Returned da \<and> phases c 1 = Returned db \<and> da \<noteq> db"
proof -
  let ?s0 = "refresh_begin idle_state"
  obtain snapA where
    bA: "refresh_body legacy_env ?s0
          = Some (Inr (Some snapA),
                  ?s0\<lparr>cachedData := Some snapA, refreshProgress := [], isRefreshing := False\<rparr>)"
    and tA: "timestamp (stats snapA) = env_now legacy_env"
    using refresh_body_success[OF legacy_listing] by blast
  define stA where
    "stA = ?s0\<lparr>cachedData := Some snapA, refreshProgress := [], isRefreshing := False\<rparr>"
  obtain snapB where
    bB: "refresh_body later_env (refresh_begin stA)
          = Some (Inr (Some snapB),
                  (refresh_begin stA)\<lparr>cachedData := Some snapB, refreshProgress := [],
                                       isRefreshing := False\<rparr>)"
    and tB: "timestamp (stats snapB) = env_now later_env"
    using refresh_body_success[OF later_listing] by blast
  define stB where
    "stB = (refresh_begin stA)\<lparr>cachedData := Some snapB, refreshProgress := [],
                               isRefreshing := False\<rparr>"
  define c1 where
    "c1 = two_calls_state\<lparr>server := stA,
                          phases := (phases two_calls_state)(0 := Returned (Some snapA))\<rparr>"
  define c2 where
    "c2 = c1\<lparr>server := refresh_begin (server c1), phases := (phases c1)(2 := Running),
             runs := Suc (runs c1)\<rparr>"
  define c3 where
    "c3 = c2\<lparr>server := stB, phases := (phases c2)(2 := Returned (Some snapB))\<rparr>"
  define c4 where "c4 = c3\<lparr>phases := (phases c3)(1 := Returned (cachedData (server c3)))\<rparr>"
  have s1: "step two_calls_state c1"
    by (rule step_returnI[where a = 0 and e = legacy_env and data = "Some snapA" and st' = stA])
       (simp_all add: bA stA_def c1_def two_calls_state_def)
  have s2: "step c1 c2"
    by (rule step_startI[where a = 2]) (simp_all add: c1_def c2_def stA_def two_calls_state_def)
  have s3: "step c2 c3"
    by (rule step_returnI[where a = 2 and e = later_env and data = "Some snapB" and st' = stB])
       (simp_all add: bB stB_def c2_def c3_def c1_def)
  have s4: "step c3 c4"
    by (rule step_pollI[where a = 1])
       (simp_all add: c4_def c3_def c2_def c1_def stB_def two_calls_state_def)
  have "step\<^sup>*\<^sup>* two_calls_state c1" using s1 by (rule r_into_rtranclp)
  then have "step\<^sup>*\<^sup>* two_calls_state c2" using s2 by (rule rtranclp.rtrancl_into_rtrancl)
  then have "step\<^sup>*\<^sup>* two_calls_state c3" using s3 by (rule rtranclp.rtrancl_into_rtrancl)
  then have reach: "step\<^sup>*\<^sup>* two_calls_state c4"
    using s4 by (rule rtranclp.rtrancl_into_rtrancl)
  have "timestamp (stats snapA) \<noteq> timestamp (stats snapB)"
    unfolding tA tB by (simp add: later_env_def legacy_env_def)
  then have ne: "Some snapA \<noteq> Some snapB" by auto
  have "phases c4 0 = Returned (Some snapA)" by (simp add: c4_def c3_def c2_def c1_def)
  moreover have "phases c4 1 = Returned (Some snapB)"
    by (simp add: c4_def c3_def c2_def c1_def stB_def)
  moreover have "runs c4 = Suc (runs two_calls_state)" by (simp add: c4_def c3_def c2_def c1_def)
  ultimately show ?thesis using reach ne by blast
qed

subsection \<open>Single flight\<close>




end
